theory Spec2Isabelle
  imports Main "HOL-Library.AList" "HOL-Library.List_Lexorder" "HOL-Library.Sublist"
begin

section \<open>Strings\<close>

text \<open>
  A JavaScript string is a sequence of UTF-16 code units; it is modelled as the list of
  their numbers, so that the Cyrillic literals of the component and of its inputs are the
  strings the program sees. \<open>ascii\<close> reads an ASCII literal as such a list.
\<close>

type_synonym jstring = "nat list"

definition ascii :: "string \<Rightarrow> jstring" where
  "ascii s = map of_char s"

text \<open>
  \<open>String.prototype.trim\<close> removes white space and line terminators from both ends:
  TAB, LF, VT, FF, CR, SP, NBSP, the space separators of Unicode, LS, PS and the BOM.
\<close>

definition isWhiteSpace :: "nat \<Rightarrow> bool" where
  "isWhiteSpace c \<longleftrightarrow>
     c \<in> set [9, 10, 11, 12, 13, 32, 0xA0, 0x1680, 0x2028, 0x2029, 0x202F, 0x205F, 0x3000, 0xFEFF]
     \<or> (0x2000 \<le> c \<and> c \<le> 0x200A)"

definition trim :: "jstring \<Rightarrow> jstring" where
  "trim s = rev (dropWhile isWhiteSpace (rev (dropWhile isWhiteSpace s)))"

text \<open>
  \<open>String.prototype.toLowerCase\<close>, on the scripts the program meets: Basic Latin,
  Latin-1 and the Cyrillic block (U+0400 to U+042F). Every other code unit is kept.
\<close>

definition toLowerUnit :: "nat \<Rightarrow> nat" where
  "toLowerUnit c =
     (if 65 \<le> c \<and> c \<le> 90 then c + 32
      else if 0xC0 \<le> c \<and> c \<le> 0xDE \<and> c \<noteq> 0xD7 then c + 32
      else if 0x400 \<le> c \<and> c \<le> 0x40F then c + 80
      else if 0x410 \<le> c \<and> c \<le> 0x42F then c + 32
      else c)"

definition toLowerCase :: "jstring \<Rightarrow> jstring" where
  "toLowerCase s = map toLowerUnit s"

text \<open>\<open>s.includes(pat)\<close>: \<open>pat\<close> occurs in \<open>s\<close> as a contiguous run of code units.\<close>

primrec includesStr :: "jstring \<Rightarrow> jstring \<Rightarrow> bool" where
  "includesStr [] pat = (pat = [])"
| "includesStr (c # s) pat = (prefix pat (c # s) \<or> includesStr s pat)"

text \<open>\<open>xs.join(sep)\<close>.\<close>

fun join :: "jstring list \<Rightarrow> jstring \<Rightarrow> jstring" where
  "join [] sep = []"
| "join [x] sep = x"
| "join (x # y # ys) sep = x @ sep @ join (y # ys) sep"

section \<open>Data model (types.ts, App.tsx)\<close>

record CashbackEntry =
  ident :: jstring
  bankName :: jstring
  category :: jstring
  percentage :: int
  originalText :: "jstring option"

record BankConfig =
  enabled :: bool
  limit :: nat
  color :: jstring

text \<open>
  \<open>Record<string, BankConfig>\<close>: the object's own properties in the order in which
  \<open>Object.keys\<close> enumerates them. A percentage is a JavaScript number; it is modelled
  as an integer, the whole numbers that the recognition step is asked for, so that \<open>NaN\<close>
  and fractions are outside the model. A limit is what \<open>updateLimit\<close> stores, an integer
  that is not negative. The table shows nothing when \<open>data\<close> is empty (line 85); the
  matrix is computed all the same.
\<close>

type_synonym bankConfigs = "(jstring \<times> BankConfig) list"

section \<open>DataTable: normalisation and deduplication\<close>

definition str_Tinkoff :: jstring where "str_Tinkoff = ascii ''Tinkoff''"
definition str_Sber_ru :: jstring where "str_Sber_ru = [0x421, 0x431, 0x435, 0x440]"
definition str_Alfa_ru :: jstring where "str_Alfa_ru = [0x410, 0x43B, 0x44C, 0x444, 0x430]"
definition str_VTB_ru :: jstring where "str_VTB_ru = [0x412, 0x422, 0x411]"
definition str_Yandex_ru :: jstring where "str_Yandex_ru = [0x42F, 0x43D, 0x434, 0x435, 0x43A, 0x441]"

text \<open>Lines 25 to 32: five tests in sequence, each on the name as the tests before left it.\<close>

definition normalizeBank :: "jstring \<Rightarrow> jstring" where
  "normalizeBank name =
     (let b1 = (if includesStr name str_Tinkoff then ascii ''T-Bank'' else name);
          b2 = (if includesStr b1 str_Sber_ru then ascii ''Sber'' else b1);
          b3 = (if includesStr b2 str_Alfa_ru then ascii ''Alfa'' else b2);
          b4 = (if includesStr b3 str_VTB_ru then ascii ''VTB'' else b3);
          b5 = (if includesStr b4 str_Yandex_ru then ascii ''Yandex'' else b4)
      in b5)"

text \<open>Line 34: the key of the map is the template string \<open>normBank|normCat\<close>.\<close>

definition entryKey :: "CashbackEntry \<Rightarrow> jstring" where
  "entryKey entry =
     normalizeBank (bankName entry) @ ascii ''|'' @ toLowerCase (trim (category entry))"

text \<open>
  Lines 23 to 40, one pass of the loop body. The \<open>Map\<close> keeps its keys in the order of
  their first insertion and \<open>set\<close> on a present key replaces the value in place, which
  is what \<open>AList.update\<close> does on an association list.
\<close>

definition dedupStep ::
  "(jstring \<times> CashbackEntry) list \<Rightarrow> CashbackEntry \<Rightarrow> (jstring \<times> CashbackEntry) list" where
  "dedupStep uniq entry =
     (let normCat = toLowerCase (trim (category entry));
          normBank = normalizeBank (bankName entry);
          key = normBank @ ascii ''|'' @ normCat;
          stored = entry\<lparr>bankName := normBank, category := trim (category entry)\<rparr>
      in case map_of uniq key of
           None \<Rightarrow> AList.update key stored uniq
         | Some existing \<Rightarrow>
             if percentage entry > percentage existing then AList.update key stored uniq
             else uniq)"

definition uniqueEntries :: "CashbackEntry list \<Rightarrow> (jstring \<times> CashbackEntry) list" where
  "uniqueEntries data = foldl dedupStep [] data"

definition cleanData :: "CashbackEntry list \<Rightarrow> CashbackEntry list" where
  "cleanData data = map snd (uniqueEntries data)"

section \<open>DataTable: selection of the top categories of each bank\<close>

text \<open>Line 18: the keys of the configuration whose bank is enabled, in enumeration order.\<close>

definition activeBanks :: "bankConfigs \<Rightarrow> jstring list" where
  "activeBanks cfg =
     filter (\<lambda>b. case map_of cfg b of Some c \<Rightarrow> enabled c | None \<Rightarrow> False) (map fst cfg)"

text \<open>
  Line 52, \<open>bankConfigs[bank]?.limit || 5\<close>: the operator \<open>||\<close> takes its right operand
  when the left one is falsy, and the number 0 is falsy.
\<close>

definition limitOf :: "bankConfigs \<Rightarrow> jstring \<Rightarrow> nat" where
  "limitOf cfg b =
     (case map_of cfg b of
        None \<Rightarrow> 5
      | Some c \<Rightarrow> if limit c = 0 then 5 else limit c)"

text \<open>\<open>Set.prototype.add\<close> on a set kept in insertion order.\<close>

definition setAdd :: "'a list \<Rightarrow> 'a \<Rightarrow> 'a list" where
  "setAdd s x = (if x \<in> set s then s else s @ [x])"

definition selectionKey :: "jstring \<Rightarrow> CashbackEntry \<Rightarrow> jstring" where
  "selectionKey b entry = b @ ascii ''|'' @ toLowerCase (category entry)"

text \<open>
  Lines 47 to 58, the body of the loop over the active banks. \<open>Array.prototype.sort\<close> is
  stable, and so is \<open>sort_key\<close>; the comparator \<open>b.percentage - a.percentage\<close> orders by
  percentage, descending.
\<close>

definition selectBank ::
  "bankConfigs \<Rightarrow> CashbackEntry list \<Rightarrow> jstring list \<Rightarrow> jstring \<Rightarrow> jstring list" where
  "selectBank cfg clean sel b =
     (let bankEntries = filter (\<lambda>d. bankName d = b) clean;
          sorted = sort_key (\<lambda>e. - percentage e) bankEntries;
          lim = limitOf cfg b
      in foldl (\<lambda>s entry. setAdd s (selectionKey b entry)) sel (take lim sorted))"

definition bankSelections :: "bankConfigs \<Rightarrow> CashbackEntry list \<Rightarrow> jstring list" where
  "bankSelections cfg clean = foldl (selectBank cfg clean) [] (activeBanks cfg)"

section \<open>DataTable: the matrix\<close>

record Cell =
  bank :: jstring
  percentageOpt :: "int option"
  isSelected :: bool

record MatrixRow =
  name :: jstring
  values_row :: "Cell list"

text \<open>Lines 62 to 64. The default \<open>sort\<close> compares strings code unit by code unit.\<close>

definition relevantData :: "bankConfigs \<Rightarrow> CashbackEntry list \<Rightarrow> CashbackEntry list" where
  "relevantData cfg clean = filter (\<lambda>d. bankName d \<in> set (activeBanks cfg)) clean"

definition allCategories :: "bankConfigs \<Rightarrow> CashbackEntry list \<Rightarrow> jstring list" where
  "allCategories cfg clean = sort (foldl setAdd [] (map category (relevantData cfg clean)))"

text \<open>Lines 67 to 70: the lookup map of the grid, keyed by \<open>bankName|category\<close>.\<close>

definition matrixMap :: "CashbackEntry list \<Rightarrow> (jstring \<times> int) list" where
  "matrixMap clean =
     foldl (\<lambda>m d. AList.update (bankName d @ ascii ''|'' @ category d) (percentage d) m) [] clean"

text \<open>Lines 72 to 82: the result of \<open>useMemo\<close>.\<close>

definition buildMatrix :: "CashbackEntry list \<Rightarrow> bankConfigs \<Rightarrow> MatrixRow list" where
  "buildMatrix data cfg =
     (let active = activeBanks cfg;
          clean = cleanData data;
          sel = bankSelections cfg clean;
          mm = matrixMap clean
      in map (\<lambda>cat.
            \<lparr>name = cat,
             values_row = map (\<lambda>b.
               \<lparr>bank = b,
                percentageOpt = map_of mm (b @ ascii ''|'' @ cat),
                isSelected = (b @ ascii ''|'' @ toLowerCase cat \<in> set sel)\<rparr>) active\<rparr>)
           (allCategories cfg clean))"

definition targetBanks :: "bankConfigs \<Rightarrow> jstring list" where
  "targetBanks cfg = activeBanks cfg"

section \<open>Winners\<close>

text \<open>
  Lines 106 to 109 and, word for word, 195 to 198. \<open>Math.max\<close> is only called on a list
  that is not empty.
\<close>

definition activeValues :: "MatrixRow \<Rightarrow> Cell list" where
  "activeValues row = filter (\<lambda>v. isSelected v \<and> percentageOpt v \<noteq> None) (values_row row)"

definition maxActivePercent :: "MatrixRow \<Rightarrow> int" where
  "maxActivePercent row =
     (case List.map_filter percentageOpt (activeValues row) of
        [] \<Rightarrow> - 1
      | p # ps \<Rightarrow> foldl max p ps)"

text \<open>Line 112, the winners of the cheat sheet, and line 208, the winner of the table.\<close>

definition winners :: "MatrixRow \<Rightarrow> Cell list" where
  "winners row =
     filter (\<lambda>v. isSelected v \<and> percentageOpt v = Some (maxActivePercent row)) (values_row row)"

definition isWinner :: "MatrixRow \<Rightarrow> Cell \<Rightarrow> bool" where
  "isWinner row cell \<longleftrightarrow> isSelected cell \<and> percentageOpt cell = Some (maxActivePercent row)"

section \<open>Exports\<close>

text \<open>A whole number in a template string: its decimal digits, after a minus sign if negative.\<close>

fun digitsOf :: "nat \<Rightarrow> jstring" where
  "digitsOf n = (if n < 10 then [48 + n] else digitsOf (n div 10) @ [48 + n mod 10])"

declare digitsOf.simps [simp del]

definition numToString :: "int \<Rightarrow> jstring" where
  "numToString i = (if i < 0 then 45 # digitsOf (nat (- i)) else digitsOf (nat i))"

definition showPercentage :: "int option \<Rightarrow> jstring" where
  "showPercentage p = (case p of None \<Rightarrow> ascii ''undefined'' | Some i \<Rightarrow> numToString i)"

definition str_Category_ru :: jstring where
  "str_Category_ru = [0x41A, 0x430, 0x442, 0x435, 0x433, 0x43E, 0x440, 0x438, 0x44F]"

text \<open>
  Lines 89 to 95, the text handed to the clipboard. The test \<open>v.percentage ? ... : ''\<close> is
  a truthiness test: \<open>undefined\<close> and the number 0 both take the second branch.
\<close>

definition cellText :: "Cell \<Rightarrow> jstring" where
  "cellText v =
     (case percentageOpt v of
        None \<Rightarrow> []
      | Some p \<Rightarrow> if p = 0 then [] else numToString p @ ascii ''%'')"

definition rowText :: "MatrixRow \<Rightarrow> jstring" where
  "rowText row = name row @ [9] @ join (map cellText (values_row row)) [9]"

definition copyToClipboard :: "MatrixRow list \<Rightarrow> jstring list \<Rightarrow> jstring" where
  "copyToClipboard mat banks =
     (let header = str_Category_ru @ [9] @ join banks [9];
          rows = join (map rowText mat) [10]
      in header @ [10] @ rows)"

definition str_or_ru :: jstring where "str_or_ru = [32, 0x438, 0x43B, 0x438, 32]"
definition str_check :: jstring where "str_check = [0x2705, 32]"
definition str_title :: jstring where
  "str_title = [0xD83D, 0xDCCB, 32, 0x41F, 0x410, 0x41C, 0x42F, 0x422, 0x41A, 0x410, 32,
                0x41F, 0x41E, 32, 0x41A, 0x42D, 0x428, 0x411, 0x42D, 0x41A, 0x423]"
definition str_rule :: jstring where "str_rule = replicate 21 61"
definition str_calendar :: jstring where "str_calendar = [0xD83D, 0xDCC5, 32]"
definition str_generated :: jstring where
  "str_generated = [0x421, 0x433, 0x435, 0x43D, 0x435, 0x440, 0x438, 0x440, 0x43E, 0x432,
                    0x430, 0x43D, 0x43E, 32] @ ascii ''AI Cashacker''"

text \<open>Lines 104 to 118, the body of the loop over the rows, which may push one line.\<close>

definition winnerText :: "Cell list \<Rightarrow> jstring" where
  "winnerText ws =
     join (map (\<lambda>w. bank w @ ascii '' ('' @ showPercentage (percentageOpt w) @ ascii ''%)'') ws)
       str_or_ru"

definition cheatStep :: "jstring list \<Rightarrow> MatrixRow \<Rightarrow> jstring list" where
  "cheatStep lines row =
     (let ws = winners row
      in if length ws > 0
         then lines @ [str_check @ name row @ ascii '': '' @ winnerText ws]
         else lines)"

text \<open>
  Lines 100 to 121, the lines of the cheat sheet; the date is what the browser's
  \<open>toLocaleDateString\<close> gave. The file that is downloaded joins them with line feeds.
\<close>

definition cheatSheetLines :: "jstring \<Rightarrow> MatrixRow list \<Rightarrow> jstring list" where
  "cheatSheetLines date mat =
     (let lines0 = [str_title, str_rule, str_calendar @ date @ [10]];
          lines1 = foldl cheatStep lines0 mat
      in lines1 @ [10 # str_rule, str_generated])"

definition downloadCheatSheet :: "jstring \<Rightarrow> MatrixRow list \<Rightarrow> jstring" where
  "downloadCheatSheet date mat = join (cheatSheetLines date mat) [10]"

section \<open>Notions used in the statements\<close>

subsection \<open>Banks\<close>

text \<open>The five substrings that lines 28 to 32 test, and the five tags they assign.\<close>

definition matchesNoAlias :: "jstring \<Rightarrow> bool" where
  "matchesNoAlias nm \<longleftrightarrow>
     \<not> includesStr nm str_Tinkoff \<and> \<not> includesStr nm str_Sber_ru \<and> \<not> includesStr nm str_Alfa_ru
     \<and> \<not> includesStr nm str_VTB_ru \<and> \<not> includesStr nm str_Yandex_ru"

definition canonicalTags :: "jstring list" where
  "canonicalTags =
     [ascii ''T-Bank'', ascii ''Sber'', ascii ''Alfa'', ascii ''VTB'', ascii ''Yandex'']"

text \<open>A bank is enabled when the configuration has it and its \<open>enabled\<close> field is true.\<close>

definition isEnabled :: "bankConfigs \<Rightarrow> jstring \<Rightarrow> bool" where
  "isEnabled cfg b = (case map_of cfg b of Some c \<Rightarrow> enabled c | None \<Rightarrow> False)"

subsection \<open>Keys of the deduplication\<close>

text \<open>
  What line 38 stores for an entry, the key under which a stored entry lies (the key of
  line 34, read off the stored entry), the input entries of one key, and the first of a
  list of entries that has the greatest percentage of the list.
\<close>

definition normalizedEntry :: "CashbackEntry \<Rightarrow> CashbackEntry" where
  "normalizedEntry entry =
     entry\<lparr>bankName := normalizeBank (bankName entry), category := trim (category entry)\<rparr>"

definition storedKey :: "CashbackEntry \<Rightarrow> jstring" where
  "storedKey d = bankName d @ ascii ''|'' @ toLowerCase (category d)"

definition keyGroup :: "jstring \<Rightarrow> CashbackEntry list \<Rightarrow> CashbackEntry list" where
  "keyGroup k data = filter (\<lambda>x. entryKey x = k) data"

definition firstBest :: "CashbackEntry list \<Rightarrow> CashbackEntry option" where
  "firstBest g = List.find (\<lambda>x. percentage x = Max (percentage ` set g)) g"

text \<open>The pair of the claim: canonical bank and trimmed, lower-cased category.\<close>

definition pairKey :: "CashbackEntry \<Rightarrow> jstring \<times> jstring" where
  "pairKey entry = (normalizeBank (bankName entry), toLowerCase (trim (category entry)))"

definition storedPair :: "CashbackEntry \<Rightarrow> jstring \<times> jstring" where
  "storedPair d = (bankName d, toLowerCase (category d))"

subsection \<open>Selected entries\<close>

text \<open>
  The entries of a bank that line 55 takes, the first \<open>limit\<close> of its entries as sorted;
  the number of entries of a bank that carry the selection flag, those whose key, formed as
  line 56 forms it, is in the set of selections; and the number of entries a bank offers.
\<close>

definition topEntries :: "bankConfigs \<Rightarrow> CashbackEntry list \<Rightarrow> jstring \<Rightarrow> CashbackEntry list" where
  "topEntries cfg clean b =
     take (limitOf cfg b) (sort_key (\<lambda>e. - percentage e) (filter (\<lambda>d. bankName d = b) clean))"

definition selectedCount :: "bankConfigs \<Rightarrow> CashbackEntry list \<Rightarrow> jstring \<Rightarrow> nat" where
  "selectedCount cfg data b =
     length (filter (\<lambda>e. bankName e = b
                          \<and> selectionKey b e \<in> set (bankSelections cfg (cleanData data)))
               (cleanData data))"

definition offeredCount :: "CashbackEntry list \<Rightarrow> jstring \<Rightarrow> nat" where
  "offeredCount data b = length (filter (\<lambda>e. bankName e = b) (cleanData data))"

subsection \<open>Lines of the cheat sheet\<close>

text \<open>The line that the cheat sheet holds for a row with winners.\<close>

definition cheatLine :: "MatrixRow \<Rightarrow> jstring" where
  "cheatLine row = str_check @ name row @ ascii '': '' @ winnerText (winners row)"

section \<open>Inputs of the examples\<close>

text \<open>
  An entry as the recognition step returns it, without the fields the table never reads;
  a configuration without its colour; a cell; the category texts.
\<close>

definition mkEntry :: "jstring \<Rightarrow> jstring \<Rightarrow> int \<Rightarrow> CashbackEntry" where
  "mkEntry b c p = \<lparr>ident = [], bankName = b, category = c, percentage = p, originalText = None\<rparr>"

definition mkConfig :: "bool \<Rightarrow> nat \<Rightarrow> BankConfig" where
  "mkConfig en n = \<lparr>enabled = en, limit = n, color = []\<rparr>"

definition mkCell :: "jstring \<Rightarrow> int option \<Rightarrow> bool \<Rightarrow> Cell" where
  "mkCell b p s = \<lparr>bank = b, percentageOpt = p, isSelected = s\<rparr>"

definition str_Taxi :: jstring where "str_Taxi = [0x422, 0x430, 0x43A, 0x441, 0x438]"

definition str_taxi :: jstring where "str_taxi = [0x442, 0x430, 0x43A, 0x441, 0x438]"

definition str_Cafe :: jstring where "str_Cafe = [0x41A, 0x430, 0x444, 0x435]"

definition str_cafe :: jstring where "str_cafe = [0x43A, 0x430, 0x444, 0x435]"

definition taxi_data :: "CashbackEntry list" where
  "taxi_data = [mkEntry (ascii ''Sber'') str_Taxi 5, mkEntry (ascii ''Sber'') (str_taxi @ [32]) 7,
                mkEntry (ascii ''T-Bank'') str_Taxi 6]"

definition taxi_config :: bankConfigs where
  "taxi_config = [(ascii ''Sber'', mkConfig True 5), (ascii ''T-Bank'', mkConfig True 5)]"

definition cafe_data :: "CashbackEntry list" where
  "cafe_data = [mkEntry (ascii ''Alfa'') str_cafe 3, mkEntry (ascii ''VTB'') str_Cafe 4]"

definition cafe_config :: bankConfigs where
  "cafe_config = [(ascii ''Alfa'', mkConfig True 5), (ascii ''VTB'', mkConfig True 4)]"

definition zero_limit_data :: "CashbackEntry list" where
  "zero_limit_data = [mkEntry (ascii ''Sber'') str_Cafe 5, mkEntry (ascii ''Sber'') str_Taxi 7]"

definition zero_limit_config :: bankConfigs where
  "zero_limit_config = [(ascii ''Sber'', mkConfig True 0)]"

definition six_data :: "CashbackEntry list" where
  "six_data = [mkEntry (ascii ''Sber'') (ascii ''Taxi'') 1, mkEntry (ascii ''Sber'') (ascii ''Cafe'') 2,
               mkEntry (ascii ''Sber'') (ascii ''Fuel'') 3, mkEntry (ascii ''Sber'') (ascii ''Books'') 4,
               mkEntry (ascii ''Sber'') (ascii ''Pets'') 5, mkEntry (ascii ''Sber'') (ascii ''Games'') 6,
               mkEntry (ascii ''Alfa'') (ascii ''Taxi'') 3, mkEntry (ascii ''Alfa'') (ascii ''Cafe'') 8]"

definition six_config :: bankConfigs where
  "six_config = [(ascii ''Sber'', mkConfig True 0), (ascii ''Alfa'', mkConfig True 1)]"

definition zero_percent_data :: "CashbackEntry list" where
  "zero_percent_data = [mkEntry (ascii ''Sber'') str_Cafe 0, mkEntry (ascii ''T-Bank'') str_Cafe 5]"

definition tie_data :: "CashbackEntry list" where
  "tie_data = [mkEntry (ascii ''Sber'') str_Cafe 5, mkEntry (ascii ''Alfa'') str_Cafe 5]"

definition tie_config :: bankConfigs where
  "tie_config = [(ascii ''Sber'', mkConfig True 5), (ascii ''Alfa'', mkConfig True 5)]"

definition mixed_tie_data :: "CashbackEntry list" where
  "mixed_tie_data = [mkEntry (ascii ''Sber'') str_Cafe 5, mkEntry (ascii ''Alfa'') str_cafe 5]"

definition off_data :: "CashbackEntry list" where
  "off_data = [mkEntry (ascii ''Sber'') str_Cafe 5, mkEntry (ascii ''T-Bank'') str_Taxi 6]"

definition off_config :: bankConfigs where
  "off_config = [(ascii ''Sber'', mkConfig True 5), (ascii ''T-Bank'', mkConfig False 4)]"

definition bar_data :: "CashbackEntry list" where
  "bar_data = [mkEntry (ascii ''A|b'') (ascii ''c'') 5, mkEntry (ascii ''A'') (ascii ''b|c'') 3]"

definition same_percent_data :: "CashbackEntry list" where
  "same_percent_data = [mkEntry (ascii ''Sber'') str_Cafe 5, mkEntry (ascii ''Sber'') (32 # str_cafe) 5]"

definition row_unselected :: MatrixRow where
  "row_unselected = \<lparr>name = ascii ''Taxi'',
     values_row = [mkCell (ascii ''Sber'') (Some 5) False, mkCell (ascii ''Alfa'') None False]\<rparr>"

definition row_mixed :: MatrixRow where
  "row_mixed = \<lparr>name = ascii ''Cafe'',
     values_row = [mkCell (ascii ''Sber'') (Some 5) True, mkCell (ascii ''T-Bank'') (Some 7) True,
                   mkCell (ascii ''Alfa'') (Some 9) False, mkCell (ascii ''VTB'') None True]\<rparr>"

section \<open>Evaluation rules\<close>

lemmas str_simps = ascii_def str_Tinkoff_def str_Sber_ru_def str_Alfa_ru_def str_VTB_ru_def
  str_Yandex_ru_def

lemmas norm_simps = Let_def normalizeBank_def trim_def toLowerCase_def toLowerUnit_def
  isWhiteSpace_def

lemmas dedup_simps = cleanData_def uniqueEntries_def dedupStep_def mkEntry_def

lemmas example_simps = str_Taxi_def str_taxi_def str_Cafe_def str_cafe_def mkConfig_def

lemmas select_simps = bankSelections_def selectBank_def activeBanks_def limitOf_def setAdd_def
  selectionKey_def

lemmas matrix_simps = buildMatrix_def allCategories_def relevantData_def matrixMap_def
  targetBanks_def

lemmas winner_simps = winners_def isWinner_def maxActivePercent_def activeValues_def
  List.map_filter_def mkCell_def

lemmas all_simps = mkEntry_def mkCell_def matrix_simps select_simps example_simps str_simps
  norm_simps

lemmas export_simps = copyToClipboard_def rowText_def cellText_def numToString_def digitsOf.simps
  showPercentage_def

section \<open>Canonical bank names\<close>

lemma includesStr_sublist: "includesStr s pat \<longleftrightarrow> sublist pat s"
  by (induction s) (simp_all add: sublist_Cons_right)

lemma tags_hold_no_alias:
  "\<not> includesStr (ascii ''T-Bank'') str_Sber_ru" "\<not> includesStr (ascii ''T-Bank'') str_Alfa_ru"
  "\<not> includesStr (ascii ''T-Bank'') str_VTB_ru" "\<not> includesStr (ascii ''T-Bank'') str_Yandex_ru"
  "\<not> includesStr (ascii ''Sber'') str_Alfa_ru" "\<not> includesStr (ascii ''Sber'') str_VTB_ru"
  "\<not> includesStr (ascii ''Sber'') str_Yandex_ru" "\<not> includesStr (ascii ''Alfa'') str_VTB_ru"
  "\<not> includesStr (ascii ''Alfa'') str_Yandex_ru" "\<not> includesStr (ascii ''VTB'') str_Yandex_ru"
  by (simp_all add: str_simps)

text \<open>
  C4, as stated, fails: the name \<open>Gazprom\<close> contains none of the five substrings, and the
  canonical name it gets is \<open>Gazprom\<close> itself, not \<open>Other\<close>; the entry that leaves the
  deduplication carries that name, which is outside the six tags.
\<close>

theorem unmatched_bank_not_Other:
  "matchesNoAlias (ascii ''Gazprom'')
   \<and> normalizeBank (ascii ''Gazprom'') = ascii ''Gazprom''
   \<and> normalizeBank (ascii ''Gazprom'') \<noteq> ascii ''Other''
   \<and> map bankName (cleanData [mkEntry (ascii ''Gazprom'') (ascii ''Taxi'') 5]) = [ascii ''Gazprom'']
   \<and> ascii ''Gazprom'' \<notin> set (ascii ''Other'' # canonicalTags)"
  by (simp add: matchesNoAlias_def canonicalTags_def dedup_simps str_simps norm_simps)

text \<open>
  C4, amended: a bank name that contains none of the five substrings is kept as it is;
  every canonical name is one of the five tags or the name that came in.
\<close>

theorem normalizeBank_tag_or_unchanged:
  "(normalizeBank nm \<in> set canonicalTags \<or> normalizeBank nm = nm)
   \<and> (matchesNoAlias nm \<longrightarrow> normalizeBank nm = nm)"
  using tags_hold_no_alias
  by (simp add: normalizeBank_def matchesNoAlias_def canonicalTags_def Let_def)

theorem normalizeBank_tag_or_unchanged_witness:
  "matchesNoAlias (ascii ''Ozon Bank'') \<and> normalizeBank (ascii ''Ozon Bank'') = ascii ''Ozon Bank''"
  using normalizeBank_tag_or_unchanged [of "ascii ''Ozon Bank''"]
  by (simp add: matchesNoAlias_def str_simps)

section \<open>Deduplication\<close>

lemma dedupStep_cases:
  "dedupStep uniq x =
     (if (case map_of uniq (entryKey x) of None \<Rightarrow> True | Some ex \<Rightarrow> percentage ex < percentage x)
      then AList.update (entryKey x) (normalizedEntry x) uniq else uniq)"
  by (simp add: dedupStep_def entryKey_def normalizedEntry_def Let_def split: option.splits)

lemma uniqueEntries_snoc: "uniqueEntries (data @ [x]) = dedupStep (uniqueEntries data) x"
  by (simp add: uniqueEntries_def)

lemma storedKey_normalizedEntry: "storedKey (normalizedEntry x) = entryKey x"
  by (simp add: storedKey_def normalizedEntry_def entryKey_def)

lemma percentage_normalizedEntry: "percentage (normalizedEntry x) = percentage x"
  by (simp add: normalizedEntry_def)

lemma set_update_subset: "set (AList.update k v al) \<subseteq> insert (k, v) (set al)"
  by (induction al) auto

lemma distinct_uniqueEntries: "distinct (map fst (uniqueEntries data))"
proof (induction data rule: rev_induct)
  case Nil
  show ?case by (simp add: uniqueEntries_def)
next
  case (snoc x data)
  then show ?case
    by (simp add: uniqueEntries_snoc dedupStep_cases distinct_update)
qed

lemma uniqueEntries_storedKey:
  "(k, d) \<in> set (uniqueEntries data) \<Longrightarrow> storedKey d = k"
proof (induction data arbitrary: k d rule: rev_induct)
  case Nil
  then show ?case by (simp add: uniqueEntries_def)
next
  case (snoc x data)
  from snoc.prems have "(k, d) = (entryKey x, normalizedEntry x) \<or> (k, d) \<in> set (uniqueEntries data)"
    using set_update_subset [of "entryKey x" "normalizedEntry x" "uniqueEntries data"]
    by (auto simp: uniqueEntries_snoc dedupStep_cases split: if_splits)
  then show ?case using snoc.IH by (auto simp: storedKey_normalizedEntry)
qed

lemma find_append:
  "List.find P (xs @ ys) = (case List.find P xs of None \<Rightarrow> List.find P ys | Some x \<Rightarrow> Some x)"
  by (induction xs) simp_all

lemma firstBest_Nil: "firstBest [] = None"
  by (simp add: firstBest_def)

lemma firstBest_single: "firstBest [x] = Some x"
  by (simp add: firstBest_def)

lemma firstBest_Some:
  assumes "g \<noteq> []"
  shows "\<exists>w. firstBest g = Some w \<and> w \<in> set g \<and> percentage w = Max (percentage ` set g)"
proof -
  from assms have "Max (percentage ` set g) \<in> percentage ` set g"
    by (intro Max_in) simp_all
  then obtain y where y: "y \<in> set g" "percentage y = Max (percentage ` set g)" by auto
  then have "firstBest g \<noteq> None" by (auto simp: firstBest_def find_None_iff)
  then obtain w where w: "firstBest g = Some w" by auto
  then have "w \<in> set g \<and> percentage w = Max (percentage ` set g)"
    unfolding firstBest_def by (auto simp: find_Some_iff)
  with w show ?thesis by blast
qed

lemma firstBest_snoc:
  assumes "firstBest g = Some w"
  shows "firstBest (g @ [x]) = (if percentage w < percentage x then Some x else Some w)"
proof -
  from assms have ne: "g \<noteq> []" by (auto simp: firstBest_Nil)
  from firstBest_Some [OF ne] assms
  have w: "percentage w = Max (percentage ` set g)" by auto
  have mx: "Max (percentage ` set (g @ [x])) = max (percentage x) (Max (percentage ` set g))"
    using ne by (simp add: Max_insert)
  show ?thesis
  proof (cases "percentage w < percentage x")
    case True
    with w mx have m: "Max (percentage ` set (g @ [x])) = percentage x" by simp
    have "percentage y \<noteq> percentage x" if "y \<in> set g" for y
    proof -
      from that have "percentage y \<le> Max (percentage ` set g)" by simp
      with True w show ?thesis by linarith
    qed
    then have "List.find (\<lambda>y. percentage y = percentage x) g = None"
      by (simp add: find_None_iff)
    with m True show ?thesis by (simp add: firstBest_def find_append)
  next
    case False
    with w mx have m: "Max (percentage ` set (g @ [x])) = Max (percentage ` set g)" by simp
    from assms have "List.find (\<lambda>y. percentage y = Max (percentage ` set g)) g = Some w"
      by (simp add: firstBest_def)
    with m False show ?thesis by (simp add: firstBest_def find_append)
  qed
qed

lemma keyGroup_snoc:
  "keyGroup k (data @ [x]) = keyGroup k data @ (if entryKey x = k then [x] else [])"
  by (simp add: keyGroup_def)

lemma map_of_uniqueEntries:
  "map_of (uniqueEntries data) k = map_option normalizedEntry (firstBest (keyGroup k data))"
proof (induction data rule: rev_induct)
  case Nil
  show ?case by (simp add: uniqueEntries_def keyGroup_def firstBest_Nil)
next
  case (snoc x data)
  show ?case
  proof (cases "entryKey x = k")
    case False
    then show ?thesis
      using snoc.IH by (simp add: uniqueEntries_snoc dedupStep_cases keyGroup_snoc update_conv')
  next
    case True
    show ?thesis
    proof (cases "firstBest (keyGroup k data)")
      case None
      then have "keyGroup k data = []" using firstBest_Some [of "keyGroup k data"] by auto
      with None snoc.IH True show ?thesis
        by (simp add: uniqueEntries_snoc dedupStep_cases keyGroup_snoc update_conv' firstBest_single)
    next
      case (Some w)
      with snoc.IH True firstBest_snoc [OF Some, of x] show ?thesis
        by (simp add: uniqueEntries_snoc dedupStep_cases keyGroup_snoc update_conv'
            percentage_normalizedEntry)
    qed
  qed
qed

lemma filter_values_by_key:
  assumes "distinct (map fst al)" "\<forall>(k', d) \<in> set al. f d = k'" "map_of al k = Some v"
  shows "filter (\<lambda>d. f d = k) (map snd al) = [v]"
  using assms
proof (induction al)
  case Nil
  then show ?case by simp
next
  case (Cons p al)
  obtain k' d where p: "p = (k', d)" by (cases p)
  show ?case
  proof (cases "k' = k")
    case True
    with Cons.prems p have v: "d = v" and fd: "f d = k" by auto
    from Cons.prems p True have "\<forall>d' \<in> set (map snd al). f d' \<noteq> k" by force
    then have "filter (\<lambda>d. f d = k) (map snd al) = []" by (simp add: filter_empty_conv)
    with p v fd show ?thesis by simp
  next
    case False
    with Cons.prems p have "f d \<noteq> k" "map_of al k = Some v" by auto
    with Cons p show ?thesis by auto
  qed
qed

lemma cleanData_keys_distinct: "distinct (map storedKey (cleanData data))"
proof -
  have "map storedKey (cleanData data) = map fst (uniqueEntries data)"
    unfolding cleanData_def map_map
    by (rule map_cong) (auto simp: uniqueEntries_storedKey)
  with distinct_uniqueEntries show ?thesis by simp
qed

lemma cleanData_storedKey_inj:
  assumes "e \<in> set (cleanData data)" "e' \<in> set (cleanData data)" "storedKey e = storedKey e'"
  shows "e = e'"
  using cleanData_keys_distinct [of data] assms
  by (meson distinct_map inj_onD)

lemma distinct_cleanData: "distinct (cleanData data)"
  using cleanData_keys_distinct [of data] by (simp add: distinct_map)

lemma bar_separates:
  assumes "b1 @ 124 # c1 = b2 @ 124 # c2" "124 \<notin> set b1" "124 \<notin> set b2"
  shows "b1 = b2 \<and> c1 = (c2 :: jstring)"
  using assms
proof (induction b1 arbitrary: b2)
  case Nil
  then show ?case by (cases b2) auto
next
  case (Cons a b1)
  then show ?case by (cases b2) auto
qed

lemma key_is_pair_without_bar:
  assumes "124 \<notin> set (bankName d)" "124 \<notin> set (normalizeBank (bankName e))"
  shows "storedKey d = entryKey e \<longleftrightarrow> storedPair d = pairKey e"
  using bar_separates [OF _ assms]
  by (auto simp: storedKey_def entryKey_def storedPair_def pairKey_def ascii_def)

text \<open>
  Keyed by the string of line 34, the deduplication is exact: for every key string
  \<open>bank|category\<close> (canonical bank, a bar, trimmed and lower-cased category) of an input
  entry, exactly one entry with that key string leaves it; it is what line 38 stores for the
  first input entry of that key that has the greatest percentage of the key, so its
  percentage is that maximum and its category is the trimmed text of that entry.
\<close>

lemma dedup_one_per_key:
  assumes "e \<in> set data"
  shows "\<exists>w. firstBest (keyGroup (entryKey e) data) = Some w
     \<and> filter (\<lambda>d. storedKey d = entryKey e) (cleanData data) = [normalizedEntry w]
     \<and> percentage (normalizedEntry w) = Max (percentage ` set (keyGroup (entryKey e) data))
     \<and> category (normalizedEntry w) = trim (category w)
     \<and> bankName (normalizedEntry w) = normalizeBank (bankName w)
     \<and> (\<forall>d. 124 \<notin> set (bankName d) \<and> 124 \<notin> set (normalizeBank (bankName e))
            \<longrightarrow> (storedKey d = entryKey e) = (storedPair d = pairKey e))"
proof -
  let ?g = "keyGroup (entryKey e) data"
  from assms have "?g \<noteq> []" by (auto simp: keyGroup_def filter_empty_conv)
  from firstBest_Some [OF this] obtain w where w: "firstBest ?g = Some w" "w \<in> set ?g"
    "percentage w = Max (percentage ` set ?g)" by blast
  from w(2) have key: "entryKey w = entryKey e" by (simp add: keyGroup_def)
  have m: "map_of (uniqueEntries data) (entryKey e) = Some (normalizedEntry w)"
    by (simp add: map_of_uniqueEntries w(1))
  have "\<forall>(k', d) \<in> set (uniqueEntries data). storedKey d = k'"
    using uniqueEntries_storedKey by auto
  from filter_values_by_key [OF distinct_uniqueEntries this m]
  have f: "filter (\<lambda>d. storedKey d = entryKey e) (cleanData data) = [normalizedEntry w]"
    by (simp add: cleanData_def)
  have p: "\<forall>d. 124 \<notin> set (bankName d) \<and> 124 \<notin> set (normalizeBank (bankName e))
            \<longrightarrow> (storedKey d = entryKey e) = (storedPair d = pairKey e)"
    using key_is_pair_without_bar by blast
  from w f p show ?thesis
    by (auto simp: percentage_normalizedEntry normalizedEntry_def)
qed

lemma same_percent_cleanData:
  "cleanData same_percent_data = [mkEntry (ascii ''Sber'') str_Cafe 5]"
  by (simp add: same_percent_data_def dedup_simps example_simps str_simps norm_simps)

lemma dedup_one_per_key_witness:
  "mkEntry (ascii ''Sber'') str_Taxi 5 \<in> set taxi_data
   \<and> filter (\<lambda>d. storedKey d = entryKey (mkEntry (ascii ''Sber'') str_Taxi 5)) (cleanData taxi_data)
       = [mkEntry (ascii ''Sber'') str_taxi 7]
   \<and> mkEntry (ascii ''Sber'') (32 # str_cafe) 5 \<in> set same_percent_data
   \<and> filter (\<lambda>d. storedKey d = entryKey (mkEntry (ascii ''Sber'') (32 # str_cafe) 5))
         (cleanData same_percent_data)
       = [mkEntry (ascii ''Sber'') str_Cafe 5]"
proof -
  let ?e = "mkEntry (ascii ''Sber'') str_Taxi 5"
  let ?c = "mkEntry (ascii ''Sber'') (32 # str_cafe) 5"
  have e: "?e \<in> set taxi_data" by (simp add: taxi_data_def)
  have c: "?c \<in> set same_percent_data" by (simp add: same_percent_data_def)
  have be: "firstBest (keyGroup (entryKey ?e) taxi_data) = Some (mkEntry (ascii ''Sber'') (str_taxi @ [32]) 7)"
    by (simp add: firstBest_def keyGroup_def entryKey_def taxi_data_def mkEntry_def example_simps
        str_simps norm_simps)
  have bc: "firstBest (keyGroup (entryKey ?c) same_percent_data) = Some (mkEntry (ascii ''Sber'') str_Cafe 5)"
    by (simp add: firstBest_def keyGroup_def entryKey_def same_percent_data_def mkEntry_def
        example_simps str_simps norm_simps)
  have ne: "normalizedEntry (mkEntry (ascii ''Sber'') (str_taxi @ [32]) 7) = mkEntry (ascii ''Sber'') str_taxi 7"
    by (simp add: normalizedEntry_def mkEntry_def example_simps str_simps norm_simps)
  have nc: "normalizedEntry (mkEntry (ascii ''Sber'') str_Cafe 5) = mkEntry (ascii ''Sber'') str_Cafe 5"
    by (simp add: normalizedEntry_def mkEntry_def example_simps str_simps norm_simps)
  from dedup_one_per_key [OF e] be ne
  have "filter (\<lambda>d. storedKey d = entryKey ?e) (cleanData taxi_data) = [mkEntry (ascii ''Sber'') str_taxi 7]"
    by auto
  moreover from dedup_one_per_key [OF c] bc nc
  have "filter (\<lambda>d. storedKey d = entryKey ?c) (cleanData same_percent_data)
      = [mkEntry (ascii ''Sber'') str_Cafe 5]"
    by auto
  ultimately show ?thesis using e c by simp
qed

lemma firstBest_in_set: "firstBest g = Some w \<Longrightarrow> w \<in> set g"
  using firstBest_Some [of g] by (cases "g = []") (auto simp: firstBest_Nil)

lemma cleanData_from_input:
  assumes "d \<in> set (cleanData data)"
  shows "\<exists>x \<in> set data. d = normalizedEntry x"
proof -
  from assms obtain k where kd: "(k, d) \<in> set (uniqueEntries data)"
    by (auto simp: cleanData_def)
  with distinct_uniqueEntries [of data] have "map_of (uniqueEntries data) k = Some d" by simp
  then have "map_option normalizedEntry (firstBest (keyGroup k data)) = Some d"
    by (simp add: map_of_uniqueEntries)
  then obtain w where w: "firstBest (keyGroup k data) = Some w" "d = normalizedEntry w" by auto
  from firstBest_in_set [OF w(1)] have "w \<in> set data" by (simp add: keyGroup_def)
  with w(2) show ?thesis by blast
qed

lemma entryKey_is_pair_without_bar:
  assumes "124 \<notin> set (normalizeBank (bankName x))" "124 \<notin> set (normalizeBank (bankName e))"
  shows "entryKey x = entryKey e \<longleftrightarrow> pairKey x = pairKey e"
  using bar_separates [OF _ assms]
  by (auto simp: entryKey_def pairKey_def ascii_def)

text \<open>
  Where no canonical bank name of the input holds a bar, the key string and the pair of
  bank and category are the same thing, and the deduplication is exact for the pairs: one
  entry for each pair, the first of the greatest percentage, under the canonical bank.
\<close>

lemma dedup_one_per_pair_without_bar:
  assumes e: "e \<in> set data"
    and nobar: "\<forall>x \<in> set data. 124 \<notin> set (normalizeBank (bankName x))"
  shows "\<exists>w. firstBest (filter (\<lambda>x. pairKey x = pairKey e) data) = Some w
     \<and> filter (\<lambda>d. storedPair d = pairKey e) (cleanData data) = [normalizedEntry w]
     \<and> percentage (normalizedEntry w) =
         Max (percentage ` set (filter (\<lambda>x. pairKey x = pairKey e) data))
     \<and> category (normalizedEntry w) = trim (category w)
     \<and> bankName (normalizedEntry w) = normalizeBank (bankName e)"
proof -
  have g: "keyGroup (entryKey e) data = filter (\<lambda>x. pairKey x = pairKey e) data"
    unfolding keyGroup_def
    by (rule filter_cong) (use e nobar in \<open>simp_all add: entryKey_is_pair_without_bar\<close>)
  have "storedKey d = entryKey e \<longleftrightarrow> storedPair d = pairKey e" if "d \<in> set (cleanData data)" for d
  proof -
    from cleanData_from_input [OF that] obtain x where x: "x \<in> set data" "d = normalizedEntry x"
      by blast
    with nobar have "124 \<notin> set (bankName d)" by (simp add: normalizedEntry_def)
    moreover from e nobar have "124 \<notin> set (normalizeBank (bankName e))" by blast
    ultimately show ?thesis by (rule key_is_pair_without_bar)
  qed
  then have f: "filter (\<lambda>d. storedKey d = entryKey e) (cleanData data)
      = filter (\<lambda>d. storedPair d = pairKey e) (cleanData data)"
    by (intro filter_cong) simp_all
  from dedup_one_per_key [OF e] obtain w where w: "firstBest (keyGroup (entryKey e) data) = Some w"
    "filter (\<lambda>d. storedKey d = entryKey e) (cleanData data) = [normalizedEntry w]"
    "percentage (normalizedEntry w) = Max (percentage ` set (keyGroup (entryKey e) data))"
    "category (normalizedEntry w) = trim (category w)"
    "bankName (normalizedEntry w) = normalizeBank (bankName w)"
    by blast
  from firstBest_in_set [OF w(1)] have "pairKey w = pairKey e" by (simp add: g)
  then have "normalizeBank (bankName w) = normalizeBank (bankName e)" by (simp add: pairKey_def)
  with w show ?thesis unfolding g f by auto
qed

text \<open>
  C2 on the code: the bank \<open>A|b\<close> with the category \<open>c\<close> and the bank \<open>A\<close> with
  the category \<open>b|c\<close> are two pairs of bank and category, and line 34 joins both to the
  one key string \<open>A|b|c\<close>. The second entry occurs in the input, and no entry with its
  pair leaves the deduplication, against the grouping by bank and category that line 20
  announces.
\<close>

theorem bar_pairs_collide:
  "mkEntry (ascii ''A'') (ascii ''b|c'') 3 \<in> set bar_data
   \<and> pairKey (mkEntry (ascii ''A'') (ascii ''b|c'') 3) = (ascii ''A'', ascii ''b|c'')
   \<and> entryKey (mkEntry (ascii ''A'') (ascii ''b|c'') 3) = entryKey (mkEntry (ascii ''A|b'') (ascii ''c'') 5)
   \<and> cleanData bar_data = [mkEntry (ascii ''A|b'') (ascii ''c'') 5]
   \<and> (ascii ''A'', ascii ''b|c'') \<notin> set (map storedPair (cleanData bar_data))"
  by (simp add: bar_data_def pairKey_def storedPair_def entryKey_def dedup_simps str_simps norm_simps)

section \<open>Selection of the top entries of a bank\<close>

lemma set_foldl_setAdd_image:
  "set (foldl (\<lambda>s x. setAdd s (f x)) acc xs) = set acc \<union> f ` set xs"
  by (induction xs arbitrary: acc) (auto simp: setAdd_def)

lemma set_foldl_setAdd: "set (foldl setAdd acc xs) = set acc \<union> set xs"
  by (induction xs arbitrary: acc) (auto simp: setAdd_def)

lemma activeBanks_filter: "activeBanks cfg = filter (isEnabled cfg) (map fst cfg)"
  unfolding activeBanks_def by (rule filter_cong) (simp_all add: isEnabled_def)

lemma set_activeBanks: "set (activeBanks cfg) = {b. isEnabled cfg b}"
proof -
  have "b \<in> fst ` set cfg" if "isEnabled cfg b" for b
  proof -
    from that obtain c where "map_of cfg b = Some c"
      by (auto simp: isEnabled_def split: option.splits)
    then have "(b, c) \<in> set cfg" by (rule map_of_SomeD)
    then show ?thesis by force
  qed
  then show ?thesis by (auto simp: activeBanks_filter)
qed

lemma set_selectBank:
  "set (selectBank cfg clean sel b) = set sel \<union> selectionKey b ` set (topEntries cfg clean b)"
  by (simp add: selectBank_def topEntries_def Let_def set_foldl_setAdd_image)

lemma set_foldl_selectBank:
  "set (foldl (selectBank cfg clean) acc bs) =
     set acc \<union> (\<Union>b \<in> set bs. selectionKey b ` set (topEntries cfg clean b))"
  by (induction bs arbitrary: acc) (auto simp: set_selectBank)

lemma set_bankSelections:
  "set (bankSelections cfg clean) =
     (\<Union>b \<in> {b. isEnabled cfg b}. selectionKey b ` set (topEntries cfg clean b))"
  by (simp add: bankSelections_def set_foldl_selectBank set_activeBanks)

lemma topEntries_subset:
  "set (topEntries cfg clean b) \<subseteq> {e \<in> set clean. bankName e = b}"
proof -
  have "set (topEntries cfg clean b)
          \<subseteq> set (sort_key (\<lambda>e. - percentage e) (filter (\<lambda>d. bankName d = b) clean))"
    unfolding topEntries_def by (rule set_take_subset)
  then show ?thesis by auto
qed

lemma storedKey_selectionKey: "bankName e = b \<Longrightarrow> selectionKey b e = storedKey e"
  by (simp add: selectionKey_def storedKey_def)

lemma distinct_topEntries: "distinct (topEntries cfg (cleanData data) b)"
  unfolding topEntries_def
  by (intro distinct_take) (simp add: distinct_cleanData)

lemma length_topEntries:
  "length (topEntries cfg (cleanData data) b) = min (limitOf cfg b) (offeredCount data b)"
  by (simp add: topEntries_def offeredCount_def min.commute)

lemma selected_iff_top:
  assumes en: "isEnabled cfg b" and e: "e \<in> set (cleanData data)"
  shows "bankName e = b \<and> selectionKey b e \<in> set (bankSelections cfg (cleanData data))
         \<longleftrightarrow> e \<in> set (topEntries cfg (cleanData data) b)"
proof
  assume l: "bankName e = b \<and> selectionKey b e \<in> set (bankSelections cfg (cleanData data))"
  then obtain a e' where a: "isEnabled cfg a" and e': "e' \<in> set (topEntries cfg (cleanData data) a)"
    and k: "selectionKey b e = selectionKey a e'"
    unfolding set_bankSelections by blast
  from e' topEntries_subset have c: "e' \<in> set (cleanData data)" and ba: "bankName e' = a" by blast+
  from k l ba have "storedKey e = storedKey e'" by (simp add: storedKey_selectionKey)
  with e c have "e = e'" by (rule cleanData_storedKey_inj)
  with l ba e' show "e \<in> set (topEntries cfg (cleanData data) b)" by simp
next
  assume r: "e \<in> set (topEntries cfg (cleanData data) b)"
  with topEntries_subset have "bankName e = b" by blast
  with r en show "bankName e = b \<and> selectionKey b e \<in> set (bankSelections cfg (cleanData data))"
    unfolding set_bankSelections by blast
qed

lemma selectedCount_enabled:
  assumes "isEnabled cfg b"
  shows "selectedCount cfg data b = min (limitOf cfg b) (offeredCount data b)"
proof -
  let ?clean = "cleanData data" and ?top = "topEntries cfg (cleanData data) b"
  have "filter (\<lambda>e. bankName e = b \<and> selectionKey b e \<in> set (bankSelections cfg ?clean)) ?clean
      = filter (\<lambda>e. e \<in> set ?top) ?clean"
    by (rule filter_cong) (simp_all add: selected_iff_top [OF assms])
  then have "selectedCount cfg data b = length (filter (\<lambda>e. e \<in> set ?top) ?clean)"
    by (simp add: selectedCount_def)
  also have "\<dots> = card ({e. e \<in> set ?top} \<inter> set ?clean)"
    by (rule distinct_length_filter) (rule distinct_cleanData)
  also have "{e. e \<in> set ?top} \<inter> set ?clean = set ?top"
    using topEntries_subset [of cfg ?clean b] by auto
  also have "card (set ?top) = length ?top"
    by (rule distinct_card) (rule distinct_topEntries)
  finally show ?thesis by (simp add: length_topEntries)
qed

lemma selectedCount_positive_limit:
  assumes "map_of cfg b = Some c" "enabled c" "0 < limit c"
  shows "selectedCount cfg data b = min (limit c) (offeredCount data b)"
proof -
  from assms have "isEnabled cfg b" "limitOf cfg b = limit c"
    by (simp_all add: isEnabled_def limitOf_def)
  with selectedCount_enabled [of cfg b data] show ?thesis by simp
qed

lemma limitOf_zero: "map_of cfg b = Some c \<Longrightarrow> limit c = 0 \<Longrightarrow> limitOf cfg b = 5"
  by (simp add: limitOf_def)

lemma zero_limit_cleanData:
  "cleanData zero_limit_data = [mkEntry (ascii ''Sber'') str_Cafe 5, mkEntry (ascii ''Sber'') str_Taxi 7]"
  by (simp add: zero_limit_data_def dedup_simps example_simps str_simps norm_simps)

text \<open>
  C1 on the code: Sber is enabled with the limit 0, and both of its entries are selected,
  because line 52 replaces a limit of 0 by 5.
\<close>

theorem limit_zero_selects_five:
  "map_of zero_limit_config (ascii ''Sber'') = Some (mkConfig True 0)
   \<and> limitOf zero_limit_config (ascii ''Sber'') = 5
   \<and> bankSelections zero_limit_config (cleanData zero_limit_data) =
       [ascii ''Sber|'' @ str_taxi, ascii ''Sber|'' @ str_cafe]
   \<and> buildMatrix zero_limit_data zero_limit_config =
       [\<lparr>name = str_Cafe, values_row = [mkCell (ascii ''Sber'') (Some 5) True]\<rparr>,
        \<lparr>name = str_Taxi, values_row = [mkCell (ascii ''Sber'') (Some 7) True]\<rparr>]"
  by (simp add: zero_limit_cleanData zero_limit_config_def all_simps)

lemma six_cleanData: "cleanData six_data = six_data"
  by (simp add: six_data_def dedup_simps example_simps str_simps norm_simps)

lemma six_selections:
  "bankSelections six_config six_data =
     [ascii ''Sber|games'', ascii ''Sber|pets'', ascii ''Sber|books'', ascii ''Sber|fuel'',
      ascii ''Sber|cafe'', ascii ''Alfa|cafe'']"
  by (simp add: six_data_def six_config_def all_simps)

text \<open>
  C3 on the code: with the limit 0, five of the six entries of Sber are selected, more than
  the limit and more than the minimum of the limit and the six; Alfa, with the limit 1 and
  two entries, has one selected.
\<close>

theorem limit_zero_count_exceeds:
  "map_of six_config (ascii ''Sber'') = Some (mkConfig True 0)
   \<and> offeredCount six_data (ascii ''Sber'') = 6
   \<and> selectedCount six_config six_data (ascii ''Sber'') = 5
   \<and> selectedCount six_config six_data (ascii ''Alfa'') = 1"
  by (simp add: selectedCount_def offeredCount_def six_cleanData six_selections)
     (simp add: six_data_def six_config_def mkEntry_def mkConfig_def selectionKey_def str_simps
        norm_simps)

section \<open>Rows and columns of the matrix\<close>

lemma buildMatrix_names: "map name (buildMatrix data cfg) = allCategories cfg (cleanData data)"
  by (simp add: buildMatrix_def Let_def comp_def)

lemma buildMatrix_columns:
  "row \<in> set (buildMatrix data cfg) \<Longrightarrow> map bank (values_row row) = targetBanks cfg"
  by (auto simp: buildMatrix_def Let_def comp_def targetBanks_def)

lemma set_allCategories:
  "set (allCategories cfg clean) = category ` {e \<in> set clean. isEnabled cfg (bankName e)}"
  by (auto simp: allCategories_def relevantData_def set_foldl_setAdd set_activeBanks)

text \<open>
  C9: a bank that is not enabled is no column of any row; every selection is the key of an
  entry of an enabled bank, so of another bank; and the names of the rows are exactly the
  categories of the deduplicated entries of enabled banks, so every row has an offer of an
  enabled bank, and a category that only banks which are not enabled offer is no row.
\<close>

theorem disabled_bank_excluded:
  assumes "\<not> isEnabled cfg b"
  shows "b \<notin> set (targetBanks cfg)
    \<and> (\<forall>row \<in> set (buildMatrix data cfg). map bank (values_row row) = targetBanks cfg)
    \<and> (\<forall>k \<in> set (bankSelections cfg (cleanData data)). \<exists>e \<in> set (cleanData data).
          isEnabled cfg (bankName e) \<and> bankName e \<noteq> b \<and> k = selectionKey (bankName e) e)
    \<and> set (map name (buildMatrix data cfg)) =
        category ` {e \<in> set (cleanData data). isEnabled cfg (bankName e)}
    \<and> (\<forall>row \<in> set (buildMatrix data cfg). \<exists>e \<in> set (cleanData data).
          isEnabled cfg (bankName e) \<and> bankName e \<noteq> b \<and> category e = name row)"
proof (intro conjI ballI)
  show "b \<notin> set (targetBanks cfg)"
    using assms by (simp add: targetBanks_def set_activeBanks)
next
  fix row assume "row \<in> set (buildMatrix data cfg)"
  then show "map bank (values_row row) = targetBanks cfg" by (rule buildMatrix_columns)
next
  fix k assume "k \<in> set (bankSelections cfg (cleanData data))"
  then obtain a e where a: "isEnabled cfg a" and e: "e \<in> set (topEntries cfg (cleanData data) a)"
    and k: "k = selectionKey a e"
    unfolding set_bankSelections by blast
  from e topEntries_subset have "e \<in> set (cleanData data)" "bankName e = a" by blast+
  with a k assms show "\<exists>e \<in> set (cleanData data).
      isEnabled cfg (bankName e) \<and> bankName e \<noteq> b \<and> k = selectionKey (bankName e) e"
    by blast
next
  show names: "set (map name (buildMatrix data cfg)) =
      category ` {e \<in> set (cleanData data). isEnabled cfg (bankName e)}"
    by (simp only: buildMatrix_names set_allCategories)
  fix row assume "row \<in> set (buildMatrix data cfg)"
  then have "name row \<in> set (map name (buildMatrix data cfg))" by simp
  with names obtain e where "e \<in> set (cleanData data)" "isEnabled cfg (bankName e)"
    "category e = name row" by auto
  with assms show "\<exists>e \<in> set (cleanData data).
      isEnabled cfg (bankName e) \<and> bankName e \<noteq> b \<and> category e = name row"
    by blast
qed

lemma off_cleanData: "cleanData off_data = off_data"
  by (simp add: off_data_def dedup_simps example_simps str_simps norm_simps)

lemma off_matrix:
  "buildMatrix off_data off_config =
     [\<lparr>name = str_Cafe, values_row = [mkCell (ascii ''Sber'') (Some 5) True]\<rparr>]"
  unfolding buildMatrix_def Let_def off_cleanData
  by (simp add: off_data_def off_config_def all_simps)

theorem disabled_bank_excluded_witness:
  "\<not> isEnabled off_config (ascii ''T-Bank'')
   \<and> ascii ''T-Bank'' \<notin> set (targetBanks off_config)
   \<and> targetBanks off_config = [ascii ''Sber'']
   \<and> set (map name (buildMatrix off_data off_config)) = {str_Cafe}
   \<and> str_Taxi \<in> category ` set (cleanData off_data)"
proof -
  have off: "\<not> isEnabled off_config (ascii ''T-Bank'')"
    by (simp add: isEnabled_def off_config_def mkConfig_def ascii_def)
  from disabled_bank_excluded [OF off, of off_data]
  have "ascii ''T-Bank'' \<notin> set (targetBanks off_config)" by blast
  moreover have "targetBanks off_config = [ascii ''Sber'']"
    by (simp add: targetBanks_def activeBanks_def off_config_def mkConfig_def ascii_def)
  moreover have "set (map name (buildMatrix off_data off_config)) = {str_Cafe}"
    by (simp add: off_matrix)
  moreover have "str_Taxi \<in> category ` set (cleanData off_data)"
    by (simp add: off_cleanData) (simp add: off_data_def mkEntry_def)
  ultimately show ?thesis using off by simp
qed

lemma taxi_cleanData:
  "cleanData taxi_data = [mkEntry (ascii ''Sber'') str_taxi 7, mkEntry (ascii ''T-Bank'') str_Taxi 6]"
  by (simp add: taxi_data_def dedup_simps example_simps str_simps norm_simps)

lemma taxi_selections:
  "bankSelections taxi_config (cleanData taxi_data) =
     [ascii ''Sber|'' @ str_taxi, ascii ''T-Bank|'' @ str_taxi]"
  unfolding taxi_cleanData
  by (simp add: taxi_config_def mkEntry_def select_simps example_simps str_simps norm_simps)

lemma taxi_matrix:
  "buildMatrix taxi_data taxi_config =
     [\<lparr>name = str_Taxi,
       values_row = [mkCell (ascii ''Sber'') None True, mkCell (ascii ''T-Bank'') (Some 6) True]\<rparr>,
      \<lparr>name = str_taxi,
       values_row = [mkCell (ascii ''Sber'') (Some 7) True, mkCell (ascii ''T-Bank'') None True]\<rparr>]"
  by (simp add: taxi_cleanData taxi_config_def mkEntry_def mkCell_def matrix_simps select_simps
      example_simps str_simps norm_simps)

text \<open>
  C6 on the code: the three entries are deduplicated to the two of the claim and both are
  selected, but the matrix has two rows, one for each spelling; in each a selected cell has
  no percentage, and the row of the capital spelling has the winner T-Bank at 6.
\<close>

theorem taxi_example_two_rows:
  "cleanData taxi_data = [mkEntry (ascii ''Sber'') str_taxi 7, mkEntry (ascii ''T-Bank'') str_Taxi 6]
   \<and> bankSelections taxi_config (cleanData taxi_data) =
       [ascii ''Sber|'' @ str_taxi, ascii ''T-Bank|'' @ str_taxi]
   \<and> buildMatrix taxi_data taxi_config =
       [\<lparr>name = str_Taxi,
         values_row = [mkCell (ascii ''Sber'') None True, mkCell (ascii ''T-Bank'') (Some 6) True]\<rparr>,
        \<lparr>name = str_taxi,
         values_row = [mkCell (ascii ''Sber'') (Some 7) True, mkCell (ascii ''T-Bank'') None True]\<rparr>]
   \<and> map winners (buildMatrix taxi_data taxi_config) =
       [[mkCell (ascii ''T-Bank'') (Some 6) True], [mkCell (ascii ''Sber'') (Some 7) True]]"
  unfolding taxi_matrix taxi_selections
  unfolding taxi_cleanData
  by (simp add: winner_simps ascii_def)

lemma cafe_cleanData:
  "cleanData cafe_data = [mkEntry (ascii ''Alfa'') str_cafe 3, mkEntry (ascii ''VTB'') str_Cafe 4]"
  by (simp add: cafe_data_def dedup_simps example_simps str_simps norm_simps)

lemma cafe_matrix:
  "buildMatrix cafe_data cafe_config =
     [\<lparr>name = str_Cafe,
       values_row = [mkCell (ascii ''Alfa'') None True, mkCell (ascii ''VTB'') (Some 4) True]\<rparr>,
      \<lparr>name = str_cafe,
       values_row = [mkCell (ascii ''Alfa'') (Some 3) True, mkCell (ascii ''VTB'') None True]\<rparr>]"
  by (simp add: cafe_cleanData cafe_config_def all_simps)

text \<open>
  C10: Alfa offers the category in small letters and VTB with a capital, both banks are
  enabled, and the matrix holds a cell that is selected and has no percentage (in fact two).
\<close>

theorem selected_cell_without_percentage:
  "isEnabled cafe_config (ascii ''Alfa'') \<and> isEnabled cafe_config (ascii ''VTB'')
   \<and> str_Cafe \<noteq> str_cafe \<and> toLowerCase str_Cafe = toLowerCase str_cafe
   \<and> mkCell (ascii ''Alfa'') None True \<in> set (values_row (buildMatrix cafe_data cafe_config ! 0))
   \<and> (\<exists>row \<in> set (buildMatrix cafe_data cafe_config). \<exists>c \<in> set (values_row row).
         isSelected c \<and> percentageOpt c = None)"
  unfolding cafe_matrix
  by (simp add: isEnabled_def cafe_config_def mkCell_def example_simps toLowerCase_def
      toLowerUnit_def ascii_def)

section \<open>Winners of a row\<close>

lemma foldl_max_greatest:
  "foldl max (p::int) ps \<in> set (p # ps) \<and> (\<forall>q \<in> set (p # ps). q \<le> foldl max p ps)"
proof (induction ps arbitrary: p)
  case Nil
  show ?case by simp
next
  case (Cons a ps)
  from Cons.IH [of "max p a"] show ?case by (auto simp: max_def split: if_splits)
qed

lemma set_active_percentages:
  "set (List.map_filter percentageOpt (activeValues row)) =
     {p. \<exists>v \<in> set (values_row row). isSelected v \<and> percentageOpt v = Some p}"
  by (force simp: List.map_filter_def activeValues_def)

lemma maxActivePercent_bound:
  assumes "v \<in> set (values_row row)" "isSelected v" "percentageOpt v = Some q"
  shows "q \<le> maxActivePercent row"
proof -
  from assms have q: "q \<in> set (List.map_filter percentageOpt (activeValues row))"
    unfolding set_active_percentages by blast
  then obtain p ps where ps: "List.map_filter percentageOpt (activeValues row) = p # ps"
    by (cases "List.map_filter percentageOpt (activeValues row)") auto
  from foldl_max_greatest [of p ps] have "\<forall>x \<in> set (p # ps). x \<le> foldl max p ps"
    by blast
  with q ps have "q \<le> foldl max p ps" by metis
  with ps show ?thesis by (simp add: maxActivePercent_def)
qed

lemma winners_eq_filter_isWinner: "winners row = filter (isWinner row) (values_row row)"
  unfolding winners_def by (rule filter_cong) (simp_all add: isWinner_def)

lemma maxActivePercent_attained:
  assumes "v \<in> set (values_row row)" "isSelected v" "percentageOpt v = Some q"
  shows "\<exists>u \<in> set (values_row row). isSelected u \<and> percentageOpt u = Some (maxActivePercent row)"
proof -
  from assms have q: "q \<in> set (List.map_filter percentageOpt (activeValues row))"
    unfolding set_active_percentages by blast
  then obtain p ps where ps: "List.map_filter percentageOpt (activeValues row) = p # ps"
    by (cases "List.map_filter percentageOpt (activeValues row)") auto
  from foldl_max_greatest [of p ps] have "foldl max p ps \<in> set (p # ps)" by blast
  with ps have "maxActivePercent row \<in> set (List.map_filter percentageOpt (activeValues row))"
    by (simp add: maxActivePercent_def)
  then show ?thesis unfolding set_active_percentages by blast
qed

text \<open>
  A selected cell of a row whose percentage no selected cell of the row exceeds is a winner.
\<close>

lemma winners_complete:
  assumes c: "c \<in> set (values_row row)" "isSelected c" "percentageOpt c = Some p"
    and top: "\<forall>v \<in> set (values_row row). \<forall>q. isSelected v \<and> percentageOpt v = Some q \<longrightarrow> q \<le> p"
  shows "c \<in> set (winners row)"
proof -
  from maxActivePercent_bound [OF c] have "p \<le> maxActivePercent row" .
  moreover from maxActivePercent_attained [OF c] top have "maxActivePercent row \<le> p" by blast
  ultimately show ?thesis using c by (simp add: winners_def)
qed

text \<open>
  C5: in a row without a selected cell there is no winner; every winner is a cell of the
  row, is selected, and holds a percentage that no selected cell of the row exceeds, so the
  maximum among the selected cells that hold one; the cheat sheet's winners are the cells
  the table marks; a cell that is not selected is never a winner.
\<close>

theorem winners_selected_max:
  "((\<forall>v \<in> set (values_row row). \<not> isSelected v) \<longrightarrow> winners row = [])
   \<and> (\<forall>w \<in> set (winners row). w \<in> set (values_row row) \<and> isSelected w \<and> isWinner row w
        \<and> (\<exists>p. percentageOpt w = Some p
             \<and> (\<forall>v \<in> set (values_row row). \<forall>q. isSelected v \<and> percentageOpt v = Some q \<longrightarrow> q \<le> p)))
   \<and> (\<forall>c \<in> set (values_row row). isWinner row c \<longleftrightarrow> c \<in> set (winners row))
   \<and> (\<forall>c. \<not> isSelected c \<longrightarrow> \<not> isWinner row c \<and> c \<notin> set (winners row))"
proof (intro conjI)
  show "(\<forall>v \<in> set (values_row row). \<not> isSelected v) \<longrightarrow> winners row = []"
    by (auto simp: winners_def filter_empty_conv)
  show "\<forall>w \<in> set (winners row). w \<in> set (values_row row) \<and> isSelected w \<and> isWinner row w
        \<and> (\<exists>p. percentageOpt w = Some p
             \<and> (\<forall>v \<in> set (values_row row). \<forall>q. isSelected v \<and> percentageOpt v = Some q \<longrightarrow> q \<le> p))"
    using maxActivePercent_bound by (auto simp: winners_def isWinner_def)
  show "\<forall>c \<in> set (values_row row). isWinner row c \<longleftrightarrow> c \<in> set (winners row)"
    by (simp add: winners_eq_filter_isWinner)
  show "\<forall>c. \<not> isSelected c \<longrightarrow> \<not> isWinner row c \<and> c \<notin> set (winners row)"
    by (simp add: winners_def isWinner_def)
qed

theorem winners_selected_max_witness:
  "winners row_unselected = []
   \<and> winners row_mixed = [mkCell (ascii ''T-Bank'') (Some 7) True]
   \<and> isWinner row_mixed (mkCell (ascii ''T-Bank'') (Some 7) True)
   \<and> \<not> isWinner row_mixed (mkCell (ascii ''Alfa'') (Some 9) False)
   \<and> \<not> isWinner row_mixed (mkCell (ascii ''VTB'') None True)"
proof -
  have sel: "\<forall>v \<in> set (values_row row_unselected). \<not> isSelected v"
    by (simp add: row_unselected_def mkCell_def)
  have w: "winners row_mixed = [mkCell (ascii ''T-Bank'') (Some 7) True]"
    by (simp add: row_mixed_def winner_simps ascii_def)
  have a: "\<not> isSelected (mkCell (ascii ''Alfa'') (Some 9) False)"
    by (simp add: mkCell_def)
  have v: "mkCell (ascii ''VTB'') None True \<in> set (values_row row_mixed)"
    by (simp add: row_mixed_def)
  have t: "mkCell (ascii ''T-Bank'') (Some 7) True \<in> set (winners row_mixed)"
    by (simp add: w)
  have nv: "mkCell (ascii ''VTB'') None True \<notin> set (winners row_mixed)"
    by (simp add: w mkCell_def ascii_def)
  from winners_selected_max [of row_unselected] sel have "winners row_unselected = []"
    by blast
  moreover from winners_selected_max [of row_mixed] t
  have "isWinner row_mixed (mkCell (ascii ''T-Bank'') (Some 7) True)" by blast
  moreover from winners_selected_max [of row_mixed] a
  have "\<not> isWinner row_mixed (mkCell (ascii ''Alfa'') (Some 9) False)" by blast
  moreover from winners_selected_max [of row_mixed] v nv
  have "\<not> isWinner row_mixed (mkCell (ascii ''VTB'') None True)" by blast
  ultimately show ?thesis using w by simp
qed

section \<open>The exports\<close>

lemma zero_percent_cleanData: "cleanData zero_percent_data = zero_percent_data"
  by (simp add: zero_percent_data_def dedup_simps example_simps str_simps norm_simps)

lemma zero_percent_matrix:
  "buildMatrix zero_percent_data taxi_config =
     [\<lparr>name = str_Cafe,
       values_row = [mkCell (ascii ''Sber'') (Some 0) True, mkCell (ascii ''T-Bank'') (Some 5) True]\<rparr>]"
  unfolding buildMatrix_def Let_def zero_percent_cleanData
  by (simp add: zero_percent_data_def taxi_config_def all_simps)

lemma cellText_empty_iff:
  "cellText v = [] \<longleftrightarrow> percentageOpt v = None \<or> percentageOpt v = Some 0"
  by (simp add: cellText_def ascii_def split: option.splits)

text \<open>
  C7 on the code: Sber offers the category at 0 percent, the cell of the matrix holds that
  percentage, and the exported line leaves the cell empty, where the claim has \<open>0%\<close>: the
  test of line 91 takes the number 0 for an absent value. The header and the cell of
  T-Bank are as the claim says.
\<close>

theorem zero_percent_cell_exported_empty:
  "buildMatrix zero_percent_data taxi_config =
     [\<lparr>name = str_Cafe,
       values_row = [mkCell (ascii ''Sber'') (Some 0) True, mkCell (ascii ''T-Bank'') (Some 5) True]\<rparr>]
   \<and> cellText (mkCell (ascii ''Sber'') (Some 0) True) = []
   \<and> cellText (mkCell (ascii ''T-Bank'') (Some 5) True) = ascii ''5%''
   \<and> copyToClipboard (buildMatrix zero_percent_data taxi_config) (targetBanks taxi_config) =
       str_Category_ru @ [9] @ ascii ''Sber'' @ [9] @ ascii ''T-Bank'' @ [10]
       @ str_Cafe @ [9] @ [] @ [9] @ ascii ''5%''"
  unfolding zero_percent_matrix
  by (simp add: export_simps mkCell_def targetBanks_def activeBanks_def taxi_config_def
      mkConfig_def ascii_def)

lemma foldl_cheatStep:
  "foldl cheatStep lines mat = lines @ map cheatLine (filter (\<lambda>row. winners row \<noteq> []) mat)"
  by (induction mat arbitrary: lines) (simp_all add: cheatStep_def cheatLine_def Let_def)

lemma winnerText_numbers:
  "winnerText (winners row) =
     join (map (\<lambda>w. bank w @ ascii '' ('' @ numToString (maxActivePercent row) @ ascii ''%)'')
            (winners row)) str_or_ru"
proof -
  have h: "map (\<lambda>w. bank w @ ascii '' ('' @ showPercentage (percentageOpt w) @ ascii ''%)'') (winners row)
      = map (\<lambda>w. bank w @ ascii '' ('' @ numToString (maxActivePercent row) @ ascii ''%)'') (winners row)"
    by (rule map_cong) (simp_all add: winners_def showPercentage_def)
  show ?thesis by (simp only: winnerText_def h)
qed

lemma tie_cleanData: "cleanData tie_data = tie_data"
  by (simp add: tie_data_def dedup_simps example_simps str_simps norm_simps)

lemma tie_matrix:
  "buildMatrix tie_data tie_config =
     [\<lparr>name = str_Cafe,
       values_row = [mkCell (ascii ''Sber'') (Some 5) True, mkCell (ascii ''Alfa'') (Some 5) True]\<rparr>]"
  unfolding buildMatrix_def Let_def tie_cleanData
  by (simp add: tie_data_def tie_config_def all_simps)

lemma tie_winners:
  "map winners (buildMatrix tie_data tie_config) =
     [[mkCell (ascii ''Sber'') (Some 5) True, mkCell (ascii ''Alfa'') (Some 5) True]]"
  unfolding tie_matrix by (simp add: winner_simps ascii_def)

text \<open>
  After the three lines of the heading and before the two closing lines, the cheat sheet
  holds the line of each row that has a winner, in the order of the rows, and nothing for
  the other rows; the line names the category and then each winner's bank with the
  percentage of the winners, joined by the connector.
\<close>

lemma cheat_sheet_lines:
  "cheatSheetLines date mat =
     [str_title, str_rule, str_calendar @ date @ [10]]
     @ map cheatLine (filter (\<lambda>row. winners row \<noteq> []) mat)
     @ [10 # str_rule, str_generated]
   \<and> cheatLine row =
       str_check @ name row @ ascii '': ''
       @ join (map (\<lambda>w. bank w @ ascii '' ('' @ numToString (maxActivePercent row) @ ascii ''%)'')
                (winners row)) str_or_ru
   \<and> downloadCheatSheet date mat = join (cheatSheetLines date mat) [10]
   \<and> cheatSheetLines date (buildMatrix tie_data tie_config) =
       [str_title, str_rule, str_calendar @ date @ [10],
        str_check @ str_Cafe @ ascii '': Sber (5%)'' @ str_or_ru @ ascii ''Alfa (5%)'',
        10 # str_rule, str_generated]"
proof (intro conjI)
  show lines: "cheatSheetLines date mat =
     [str_title, str_rule, str_calendar @ date @ [10]]
     @ map cheatLine (filter (\<lambda>row. winners row \<noteq> []) mat)
     @ [10 # str_rule, str_generated]" for mat
    by (simp add: cheatSheetLines_def Let_def foldl_cheatStep)
  show "cheatLine row =
       str_check @ name row @ ascii '': ''
       @ join (map (\<lambda>w. bank w @ ascii '' ('' @ numToString (maxActivePercent row) @ ascii ''%)'')
                (winners row)) str_or_ru"
    by (simp only: cheatLine_def winnerText_numbers)
  show "downloadCheatSheet date mat = join (cheatSheetLines date mat) [10]"
    by (simp add: downloadCheatSheet_def)
  have "map cheatLine (filter (\<lambda>row. winners row \<noteq> []) (buildMatrix tie_data tie_config)) =
      [str_check @ str_Cafe @ ascii '': Sber (5%)'' @ str_or_ru @ ascii ''Alfa (5%)'']"
    unfolding tie_matrix
    by (simp add: cheatLine_def winnerText_def winner_simps export_simps ascii_def)
  then show "cheatSheetLines date (buildMatrix tie_data tie_config) =
       [str_title, str_rule, str_calendar @ date @ [10],
        str_check @ str_Cafe @ ascii '': Sber (5%)'' @ str_or_ru @ ascii ''Alfa (5%)'',
        10 # str_rule, str_generated]"
    by (simp only: lines) simp
qed

text \<open>The connector and the mark of a line, code unit by code unit.\<close>

lemma winnerText_two_or_more:
  "winnerText (w1 # w2 # ws) =
     bank w1 @ ascii '' ('' @ showPercentage (percentageOpt w1) @ ascii ''%)''
     @ [32, 0x438, 0x43B, 0x438, 32] @ winnerText (w2 # ws)"
  by (simp add: winnerText_def str_or_ru_def)

lemma cheatLine_literal:
  "cheatLine row = [0x2705, 32] @ name row @ [58, 32] @ winnerText (winners row)"
  by (simp add: cheatLine_def str_check_def ascii_def)

lemma mixed_tie_cleanData: "cleanData mixed_tie_data = mixed_tie_data"
  by (simp add: mixed_tie_data_def dedup_simps example_simps str_simps norm_simps)

lemma mixed_tie_selections:
  "bankSelections tie_config (cleanData mixed_tie_data) =
     [ascii ''Sber|'' @ str_cafe, ascii ''Alfa|'' @ str_cafe]"
  unfolding mixed_tie_cleanData
  by (simp add: mixed_tie_data_def tie_config_def all_simps)

lemma mixed_tie_matrix:
  "buildMatrix mixed_tie_data tie_config =
     [\<lparr>name = str_Cafe,
       values_row = [mkCell (ascii ''Sber'') (Some 5) True, mkCell (ascii ''Alfa'') None True]\<rparr>,
      \<lparr>name = str_cafe,
       values_row = [mkCell (ascii ''Sber'') None True, mkCell (ascii ''Alfa'') (Some 5) True]\<rparr>]"
  unfolding buildMatrix_def Let_def mixed_tie_cleanData
  by (simp add: mixed_tie_data_def tie_config_def all_simps)

text \<open>
  C8 on the code: Sber offers the category with a capital and Alfa in small letters, both
  at 5 percent; both banks are enabled and both entries are selected. The matrix has a row
  for each spelling and the cheat sheet a line for each, naming one bank, where the claim
  has one line of the category that names both. When both banks spell the category alike,
  the one line names both, joined by the connector.
\<close>

theorem mixed_case_tie_two_lines:
  "isEnabled tie_config (ascii ''Sber'') \<and> isEnabled tie_config (ascii ''Alfa'')
   \<and> cleanData mixed_tie_data =
       [mkEntry (ascii ''Sber'') [0x41A, 0x430, 0x444, 0x435] 5,
        mkEntry (ascii ''Alfa'') [0x43A, 0x430, 0x444, 0x435] 5]
   \<and> bankSelections tie_config (cleanData mixed_tie_data) =
       [ascii ''Sber|'' @ [0x43A, 0x430, 0x444, 0x435], ascii ''Alfa|'' @ [0x43A, 0x430, 0x444, 0x435]]
   \<and> map name (buildMatrix mixed_tie_data tie_config) =
       [[0x41A, 0x430, 0x444, 0x435], [0x43A, 0x430, 0x444, 0x435]]
   \<and> cheatSheetLines date (buildMatrix mixed_tie_data tie_config) =
       [str_title, str_rule, str_calendar @ date @ [10],
        [0x2705, 32, 0x41A, 0x430, 0x444, 0x435] @ ascii '': Sber (5%)'',
        [0x2705, 32, 0x43A, 0x430, 0x444, 0x435] @ ascii '': Alfa (5%)'',
        10 # str_rule, str_generated]
   \<and> cheatSheetLines date (buildMatrix tie_data tie_config) =
       [str_title, str_rule, str_calendar @ date @ [10],
        [0x2705, 32, 0x41A, 0x430, 0x444, 0x435] @ ascii '': Sber (5%)''
          @ [32, 0x438, 0x43B, 0x438, 32] @ ascii ''Alfa (5%)'',
        10 # str_rule, str_generated]"
proof -
  have en: "isEnabled tie_config (ascii ''Sber'') \<and> isEnabled tie_config (ascii ''Alfa'')"
    by (simp add: isEnabled_def tie_config_def mkConfig_def ascii_def)
  have cl: "cleanData mixed_tie_data =
       [mkEntry (ascii ''Sber'') [0x41A, 0x430, 0x444, 0x435] 5,
        mkEntry (ascii ''Alfa'') [0x43A, 0x430, 0x444, 0x435] 5]"
    unfolding mixed_tie_cleanData by (simp add: mixed_tie_data_def example_simps)
  have sel: "bankSelections tie_config (cleanData mixed_tie_data) =
       [ascii ''Sber|'' @ [0x43A, 0x430, 0x444, 0x435], ascii ''Alfa|'' @ [0x43A, 0x430, 0x444, 0x435]]"
    unfolding mixed_tie_selections by (simp add: example_simps)
  have nm: "map name (buildMatrix mixed_tie_data tie_config) =
       [[0x41A, 0x430, 0x444, 0x435], [0x43A, 0x430, 0x444, 0x435]]"
    unfolding mixed_tie_matrix by (simp add: example_simps)
  have mixed: "cheatSheetLines date (buildMatrix mixed_tie_data tie_config) =
       [str_title, str_rule, str_calendar @ date @ [10],
        [0x2705, 32, 0x41A, 0x430, 0x444, 0x435] @ ascii '': Sber (5%)'',
        [0x2705, 32, 0x43A, 0x430, 0x444, 0x435] @ ascii '': Alfa (5%)'',
        10 # str_rule, str_generated]"
    unfolding mixed_tie_matrix
    by (simp add: cheatSheetLines_def cheatStep_def winnerText_def winner_simps export_simps
        str_check_def str_or_ru_def example_simps ascii_def Let_def)
  have same: "cheatSheetLines date (buildMatrix tie_data tie_config) =
       [str_title, str_rule, str_calendar @ date @ [10],
        [0x2705, 32, 0x41A, 0x430, 0x444, 0x435] @ ascii '': Sber (5%)''
          @ [32, 0x438, 0x43B, 0x438, 32] @ ascii ''Alfa (5%)'',
        10 # str_rule, str_generated]"
    unfolding tie_matrix
    by (simp add: cheatSheetLines_def cheatStep_def winnerText_def winner_simps export_simps
        str_check_def str_or_ru_def example_simps ascii_def Let_def)
  from en cl sel nm mixed same show ?thesis by blast
qed

end
